theory Spec2Isabelle
  imports Main "HOL-Library.Word"
begin

section \<open>JavaScript values of the LES subprotocol (src/les/index.js)\<close>

text \<open>
  A Buffer is a list of bytes. The structured value the codec produces and consumes is a
  Buffer or an Array of structured values. Reading \<open>x[i]\<close> gives a further kind of
  value: \<open>undefined\<close> past the end, a number inside a Buffer. \<open>null\<close> is the initial
  value of \<open>_status\<close> and \<open>_peerStatus\<close>; in the record below it is \<open>None\<close>.
\<close>

type_synonym byte = "8 word"
type_synonym buffer = "byte list"

datatype rlp = Buffer buffer | Array "rlp list"

datatype jsval = Null | Undefined | Number nat | Value rlp

text \<open>
  The exceptions a call can end in. The three \<open>Error\<close>s of \<open>sendMessage\<close> are kept apart
  by constructor instead of by message text:
  \<^item> \<open>UseSendStatus\<close>: \<^verbatim>\<open>Please send status message through .sendStatus\<close>;
  \<^item> \<open>NotAllowed code version\<close>: \<^verbatim>\<open>Code ${code} not allowed with version ${this._version}\<close>;
  \<^item> \<open>UnknownCode code\<close>: \<^verbatim>\<open>Unknown code ${code}\<close>.
  \<open>AssertionError msg\<close> is what \<open>assertEq\<close> throws, \<open>msg\<close> being the label it was given;
  \<open>DecodeError\<close> is whatever \<open>rlp.decode\<close> throws.
\<close>

datatype error =
    DecodeError
  | TypeError
  | RangeError
  | AssertionError string
  | UseSendStatus
  | NotAllowed nat nat
  | UnknownCode nat

datatype outcome = Returned | Threw error

text \<open>\<open>x[i]\<close> for a structured value \<open>x\<close>.\<close>

fun idx :: "rlp \<Rightarrow> nat \<Rightarrow> jsval" where
  "idx (Buffer b) i = (if i < length b then Number (unat (b ! i)) else Undefined)"
| "idx (Array xs) i = (if i < length xs then Value (xs ! i) else Undefined)"

text \<open>\<open>x.toString('hex')\<close>: a TypeError on \<open>undefined\<close> and \<open>null\<close>, a RangeError on a
  number (whose \<open>toString\<close> takes a radix); a Buffer or an Array returns a string.\<close>

fun toString_hex :: "jsval \<Rightarrow> error option" where
  "toString_hex Null = Some TypeError"
| "toString_hex Undefined = Some TypeError"
| "toString_hex (Number n) = Some RangeError"
| "toString_hex (Value v) = None"

text \<open>\<open>===\<close>. Two objects are identical only when they are the same object; the objects
  compared below are a stored status and a freshly decoded payload, never the same one.\<close>

fun strict_eq :: "jsval \<Rightarrow> jsval \<Rightarrow> bool" where
  "strict_eq Null Null = True"
| "strict_eq Undefined Undefined = True"
| "strict_eq (Number a) (Number b) = (a = b)"
| "strict_eq _ _ = False"

text \<open>
  Modelled from the spec: \<open>assertEq\<close> of \<open>../util\<close>, which the sources do not contain. The
  negotiation check ``compares, field-by-field'' and ``any mismatch fails the session
  with a distinguishable error identifying which field mismatched''; the duplicate-status
  guard compares the stored peer status with \<open>null\<close>. Two Buffers are equal when their
  bytes are; anything else is compared with \<open>===\<close>. The result is the exception thrown, if
  any.
\<close>

fun assertEq :: "jsval \<Rightarrow> jsval \<Rightarrow> string \<Rightarrow> error option" where
  "assertEq (Value (Buffer a)) (Value (Buffer b)) msg =
     (if a = b then None else Some (AssertionError msg))"
| "assertEq expected actual msg =
     (if strict_eq expected actual then None else Some (AssertionError msg))"

text \<open>The first exception of a sequence of calls made one after the other.\<close>

fun first_error :: "error option list \<Rightarrow> error option" where
  "first_error [] = None"
| "first_error (None # rest) = first_error rest"
| "first_error (Some e # rest) = Some e"

section \<open>Collaborators\<close>

text \<open>
  The functions the class imports and the sources do not contain are parameters:
  \<^item> \<open>rlp_decode\<close>, \<open>rlp_encode\<close>: the codec (\<open>rlp-encoding\<close>); \<open>None\<close> when \<open>rlp.decode\<close> throws;
  \<^item> \<open>int2buffer\<close>, \<open>buffer2int\<close>: of \<open>../util\<close>; the number \<open>buffer2int\<close> returns is only
    printed, so the parameter gives the exception it throws, if any;
  \<^item> \<open>Buffer_from_array\<close>: the bytes \<open>Buffer.from\<close> makes of an Array.
\<close>

record deps =
  rlp_decode :: "buffer \<Rightarrow> rlp option"
  rlp_encode :: "rlp \<Rightarrow> buffer"
  int2buffer :: "nat \<Rightarrow> buffer"
  buffer2int :: "jsval \<Rightarrow> error option"
  Buffer_from_array :: "rlp list \<Rightarrow> buffer"

text \<open>\<open>Buffer.from(x)\<close>: a copy of a Buffer, the bytes of an Array, a TypeError otherwise.\<close>

fun Buffer_from :: "deps \<Rightarrow> jsval \<Rightarrow> error + buffer" where
  "Buffer_from env (Value (Buffer b)) = Inr b"
| "Buffer_from env (Value (Array xs)) = Inr (Buffer_from_array env xs)"
| "Buffer_from env _ = Inl TypeError"

section \<open>Message codes and protocol descriptors\<close>

definition STATUS :: nat where "STATUS = 0x00"
definition ANNOUNCE :: nat where "ANNOUNCE = 0x01"
definition GET_BLOCK_HEADERS :: nat where "GET_BLOCK_HEADERS = 0x02"
definition BLOCK_HEADERS :: nat where "BLOCK_HEADERS = 0x03"
definition GET_BLOCK_BODIES :: nat where "GET_BLOCK_BODIES = 0x04"
definition BLOCK_BODIES :: nat where "BLOCK_BODIES = 0x05"
definition GET_RECEIPTS :: nat where "GET_RECEIPTS = 0x06"
definition RECEIPTS :: nat where "RECEIPTS = 0x07"
definition GET_PROOFS :: nat where "GET_PROOFS = 0x08"
definition PROOFS :: nat where "PROOFS = 0x09"
definition GET_CONTRACT_CODES :: nat where "GET_CONTRACT_CODES = 0x0a"
definition CONTRACT_CODES :: nat where "CONTRACT_CODES = 0x0b"
definition GET_HEADER_PROOFS :: nat where "GET_HEADER_PROOFS = 0x0d"
definition HEADER_PROOFS :: nat where "HEADER_PROOFS = 0x0e"
definition SEND_TX :: nat where "SEND_TX = 0x0c"
definition GET_PROOFS_V2 :: nat where "GET_PROOFS_V2 = 0x0f"
definition PROOFS_V2 :: nat where "PROOFS_V2 = 0x10"
definition GET_HELPER_TRIE_PROOFS :: nat where "GET_HELPER_TRIE_PROOFS = 0x11"
definition HELPER_TRIE_PROOFS :: nat where "HELPER_TRIE_PROOFS = 0x12"
definition SEND_TX_V2 :: nat where "SEND_TX_V2 = 0x13"
definition GET_TX_STATUS :: nat where "GET_TX_STATUS = 0x14"
definition TX_STATUS :: nat where "TX_STATUS = 0x15"

text \<open>The object \<open>MESSAGE_CODES\<close>, its keys in the order they are written.\<close>

definition MESSAGE_CODES :: "(string \<times> nat) list" where
  "MESSAGE_CODES =
    [(''STATUS'', STATUS), (''ANNOUNCE'', ANNOUNCE),
     (''GET_BLOCK_HEADERS'', GET_BLOCK_HEADERS), (''BLOCK_HEADERS'', BLOCK_HEADERS),
     (''GET_BLOCK_BODIES'', GET_BLOCK_BODIES), (''BLOCK_BODIES'', BLOCK_BODIES),
     (''GET_RECEIPTS'', GET_RECEIPTS), (''RECEIPTS'', RECEIPTS),
     (''GET_PROOFS'', GET_PROOFS), (''PROOFS'', PROOFS),
     (''GET_CONTRACT_CODES'', GET_CONTRACT_CODES), (''CONTRACT_CODES'', CONTRACT_CODES),
     (''GET_HEADER_PROOFS'', GET_HEADER_PROOFS), (''HEADER_PROOFS'', HEADER_PROOFS),
     (''SEND_TX'', SEND_TX),
     (''GET_PROOFS_V2'', GET_PROOFS_V2), (''PROOFS_V2'', PROOFS_V2),
     (''GET_HELPER_TRIE_PROOFS'', GET_HELPER_TRIE_PROOFS),
     (''HELPER_TRIE_PROOFS'', HELPER_TRIE_PROOFS),
     (''SEND_TX_V2'', SEND_TX_V2), (''GET_TX_STATUS'', GET_TX_STATUS),
     (''TX_STATUS'', TX_STATUS)]"

text \<open>\<open>getMsgPrefix\<close>: the first key whose code is \<open>msgCode\<close>, \<open>undefined\<close> (\<open>None\<close>) when
  there is none.\<close>

definition getMsgPrefix :: "nat \<Rightarrow> string option" where
  "getMsgPrefix msgCode = map_option fst (find (\<lambda>kv. snd kv = msgCode) MESSAGE_CODES)"

text \<open>The two groups of \<open>case\<close> labels that the \<open>switch\<close> of \<open>_handleMessage\<close> and the one
  of \<open>sendMessage\<close> share.\<close>

definition LES1_cases :: "nat list" where
  "LES1_cases =
    [ANNOUNCE, GET_BLOCK_HEADERS, BLOCK_HEADERS, GET_BLOCK_BODIES, BLOCK_BODIES,
     GET_RECEIPTS, RECEIPTS, GET_PROOFS, PROOFS, GET_CONTRACT_CODES, CONTRACT_CODES,
     GET_HEADER_PROOFS, HEADER_PROOFS, SEND_TX]"

definition LES2_cases :: "nat list" where
  "LES2_cases =
    [GET_PROOFS_V2, PROOFS_V2, GET_HELPER_TRIE_PROOFS, HELPER_TRIE_PROOFS, SEND_TX_V2,
     GET_TX_STATUS, TX_STATUS]"

text \<open>The static descriptors \<open>LES.les\<close> and \<open>LES.les2\<close> (\<open>constructor\<close> is the class itself).\<close>

record descriptor =
  d_name :: string
  d_version :: nat
  d_length :: nat

definition les :: descriptor where
  "les = \<lparr>d_name = ''les'', d_version = 1, d_length = 15\<rparr>"

definition les2 :: descriptor where
  "les2 = \<lparr>d_name = ''les'', d_version = 2, d_length = 21\<rparr>"

section \<open>The session\<close>

text \<open>
  What a session does to its collaborators is logged, in order: \<open>this._send(code, bytes)\<close>,
  \<open>this.emit(...)\<close>, \<open>clearTimeout(this._statusTimeoutId)\<close> and
  \<open>this._peer.disconnect(reason)\<close>. The \<open>status\<close> event carries \<open>networkId\<close>, \<open>headTd\<close>,
  \<open>headHash\<close>, \<open>headNum\<close> and \<open>genesisHash\<close>, in this order; the \<open>message\<close> event the code
  and the decoded payload.
\<close>

datatype event =
    StatusEvent jsval buffer buffer buffer buffer
  | MessageEvent nat rlp

datatype reason = TIMEOUT

datatype effect =
    Send nat buffer
  | Emit event
  | ClearTimeout
  | Disconnect reason

datatype timer = Armed | Cleared | Fired

record LES =
  version :: nat
  status :: "rlp option"
  peerStatus :: "rlp option"
  statusTimeout :: timer
  effects :: "effect list"

text \<open>The constructor: both statuses \<open>null\<close>, the five-second timer armed.\<close>

definition new_LES :: "nat \<Rightarrow> LES" where
  "new_LES v =
    \<lparr>version = v, status = None, peerStatus = None, statusTimeout = Armed, effects = []\<rparr>"

text \<open>The timer's callback, run when the armed timer elapses.\<close>

definition timeout_fires :: "LES \<Rightarrow> LES" where
  "timeout_fires s =
    (if statusTimeout s = Armed
     then s\<lparr>statusTimeout := Fired, effects := effects s @ [Disconnect TIMEOUT]\<rparr>
     else s)"

definition clearTimeout :: "LES \<Rightarrow> LES" where
  "clearTimeout s =
    s\<lparr>statusTimeout := (if statusTimeout s = Armed then Cleared else statusTimeout s),
      effects := effects s @ [ClearTimeout]\<rparr>"

definition emit :: "event \<Rightarrow> LES \<Rightarrow> LES" where
  "emit ev s = s\<lparr>effects := effects s @ [Emit ev]\<rparr>"

definition send :: "nat \<Rightarrow> buffer \<Rightarrow> LES \<Rightarrow> LES" where
  "send code bytes s = s\<lparr>effects := effects s @ [Send code bytes]\<rparr>"

definition null_or :: "rlp option \<Rightarrow> jsval" where
  "null_or x = (case x of None \<Rightarrow> Null | Some v \<Rightarrow> Value v)"

text \<open>\<open>_getStatusString\<close>: the string goes to the debug log only; what matters is whether
  building it throws. The template literals are evaluated left to right.\<close>

definition getStatusString :: "deps \<Rightarrow> rlp \<Rightarrow> error option" where
  "getStatusString env st =
    first_error
      [buffer2int env (idx st 0), buffer2int env (idx st 1), buffer2int env (idx st 2),
       toString_hex (idx st 3), buffer2int env (idx st 4), toString_hex (idx st 5)]"

text \<open>The object \<open>_handleStatus\<close> emits with \<open>status\<close>, built from the stored peer status;
  \<open>None\<close> when one of its \<open>Buffer.from\<close> calls throws (each throws a TypeError).\<close>

definition status_summary :: "deps \<Rightarrow> rlp \<Rightarrow> event option" where
  "status_summary env p =
    (case (Buffer_from env (idx p 2), Buffer_from env (idx p 3),
           Buffer_from env (idx p 4), Buffer_from env (idx p 5)) of
       (Inr td, Inr hh, Inr hn, Inr gh) \<Rightarrow> Some (StatusEvent (idx p 1) td hh hn gh)
     | _ \<Rightarrow> None)"

text \<open>\<open>_handleStatus\<close>.\<close>

definition handleStatus :: "deps \<Rightarrow> LES \<Rightarrow> outcome \<times> LES" where
  "handleStatus env s =
    (case (status s, peerStatus s) of
       (Some l, Some p) \<Rightarrow>
         let s1 = clearTimeout s in
         (case first_error
                 [assertEq (idx l 0) (idx p 0) ''Protocol version mismatch'',
                  assertEq (idx l 1) (idx p 1) ''NetworkId mismatch'',
                  assertEq (idx l 5) (idx p 5) ''Genesis block mismatch''] of
            Some e \<Rightarrow> (Threw e, s1)
          | None \<Rightarrow>
              (case status_summary env p of
                 Some ev \<Rightarrow> (Returned, emit ev s1)
               | None \<Rightarrow> (Threw TypeError, s1)))
     | _ \<Rightarrow> (Returned, s))"

text \<open>\<open>_handleMessage\<close>.\<close>

definition handleMessage :: "deps \<Rightarrow> LES \<Rightarrow> nat \<Rightarrow> buffer \<Rightarrow> outcome \<times> LES" where
  "handleMessage env s code data =
    (case rlp_decode env data of
       None \<Rightarrow> (Threw DecodeError, s)
     | Some payload \<Rightarrow>
         if code = STATUS then
           (case assertEq (null_or (peerStatus s)) Null ''Uncontrolled status message'' of
              Some e \<Rightarrow> (Threw e, s)
            | None \<Rightarrow>
                let s1 = s\<lparr>peerStatus := Some payload\<rparr> in
                (case getStatusString env payload of
                   Some e \<Rightarrow> (Threw e, s1)
                 | None \<Rightarrow> handleStatus env s1))
         else if code \<in> set LES1_cases then
           (if version s \<ge> d_version les
            then (Returned, emit (MessageEvent code payload) s)
            else (Returned, s))
         else if code \<in> set LES2_cases then
           (if version s \<ge> d_version les2
            then (Returned, emit (MessageEvent code payload) s)
            else (Returned, s))
         else (Returned, s))"

text \<open>The argument of \<open>sendStatus\<close>: a number and four Buffers.\<close>

record status_arg =
  networkId :: nat
  headTd :: buffer
  headHash :: buffer
  headNum :: buffer
  genesisHash :: buffer

text \<open>\<open>sendStatus\<close>.\<close>

definition sendStatus :: "deps \<Rightarrow> LES \<Rightarrow> status_arg \<Rightarrow> outcome \<times> LES" where
  "sendStatus env s st =
    (if status s \<noteq> None then (Returned, s)
     else
       let l = Array [Buffer (int2buffer env (version s)),
                      Buffer (int2buffer env (networkId st)),
                      Buffer (headTd st), Buffer (headHash st),
                      Buffer (headNum st), Buffer (genesisHash st)];
           s1 = s\<lparr>status := Some l\<rparr>
       in (case getStatusString env l of
             Some e \<Rightarrow> (Threw e, s1)
           | None \<Rightarrow> handleStatus env (send STATUS (rlp_encode env l) s1)))"

text \<open>\<open>sendMessage\<close>. Its debug line encodes the payload before the \<open>switch\<close>; encoding a
  structured value does not throw.\<close>

definition sendMessage :: "deps \<Rightarrow> LES \<Rightarrow> nat \<Rightarrow> rlp \<Rightarrow> outcome \<times> LES" where
  "sendMessage env s code payload =
    (if code = STATUS then (Threw UseSendStatus, s)
     else if code \<in> set LES1_cases then
       (if version s \<ge> d_version les
        then (Returned, send code (rlp_encode env payload) s)
        else (Threw (NotAllowed code (version s)), s))
     else if code \<in> set LES2_cases then
       (if version s \<ge> d_version les2
        then (Returned, send code (rlp_encode env payload) s)
        else (Threw (NotAllowed code (version s)), s))
     else (Threw (UnknownCode code), s))"

text \<open>\<open>getVersion\<close>.\<close>

definition getVersion :: "LES \<Rightarrow> nat" where
  "getVersion s = version s"

section \<open>Executions\<close>

text \<open>
  What can happen to a session: the application calls \<open>sendStatus\<close> or \<open>sendMessage\<close>, the
  peer connection delivers a message to \<open>_handleMessage\<close>, or the timer elapses. An
  exception goes to the caller; the session keeps the state it had when the exception was
  thrown, and later calls find it so.
\<close>

datatype op =
    SendStatus status_arg
  | SendMessage nat rlp
  | HandleMessage nat buffer
  | TimeoutFires

fun step :: "deps \<Rightarrow> LES \<Rightarrow> op \<Rightarrow> LES" where
  "step env s (SendStatus st) = snd (sendStatus env s st)"
| "step env s (SendMessage code payload) = snd (sendMessage env s code payload)"
| "step env s (HandleMessage code data) = snd (handleMessage env s code data)"
| "step env s TimeoutFires = timeout_fires s"

fun run :: "deps \<Rightarrow> LES \<Rightarrow> op list \<Rightarrow> LES" where
  "run env s [] = s"
| "run env s (x # xs) = run env (step env s x) xs"

fun is_status_emit :: "effect \<Rightarrow> bool" where
  "is_status_emit (Emit (StatusEvent n td hh hn gh)) = True"
| "is_status_emit _ = False"

text \<open>The \<open>status\<close> events a session has emitted, and how often it has cleared its timer.\<close>

definition status_events :: "LES \<Rightarrow> effect list" where
  "status_events s = filter is_status_emit (effects s)"

definition clears :: "LES \<Rightarrow> nat" where
  "clears s = length (filter (\<lambda>e. e = ClearTimeout) (effects s))"

text \<open>The array \<open>sendStatus\<close> stores in \<open>_status\<close>: six Buffers.\<close>

fun is_status_array :: "rlp \<Rightarrow> bool" where
  "is_status_array (Array [Buffer v, Buffer n, Buffer td, Buffer hh, Buffer hn, Buffer gh]) =
     True"
| "is_status_array _ = False"

text \<open>The three fields the negotiation check compares are the same in both records.\<close>

definition agree :: "rlp \<Rightarrow> rlp \<Rightarrow> bool" where
  "agree l p = (idx l 0 = idx p 0 \<and> idx l 1 = idx p 1 \<and> idx l 5 = idx p 5)"

text \<open>The class keeps no flag for the state the spec calls Negotiated: a session is
  negotiated once it has emitted \<open>status\<close>.\<close>

definition negotiated :: "LES \<Rightarrow> bool" where
  "negotiated s = (status_events s \<noteq> [])"

text \<open>
  What holds of a session after any sequence of calls: a stored local status is the array
  \<open>sendStatus\<close> builds; while a status is missing, no \<open>status\<close> event has been emitted and
  the timer has not been cleared; the timer is cleared at most once; and an emitted
  \<open>status\<close> event is the only one, built from the stored peer status, whose three
  compared fields are those of the local status.
\<close>

definition session_inv :: "deps \<Rightarrow> LES \<Rightarrow> bool" where
  "session_inv env s \<longleftrightarrow>
     (case status s of None \<Rightarrow> True | Some l \<Rightarrow> is_status_array l) \<and>
     ((status s = None \<or> peerStatus s = None) \<longrightarrow> status_events s = [] \<and> clears s = 0) \<and>
     clears s \<le> 1 \<and>
     (status_events s = [] \<or>
      (\<exists>l p ev. status s = Some l \<and> peerStatus s = Some p \<and> agree l p \<and>
         status_summary env p = Some ev \<and> status_events s = [Emit ev]))"

text \<open>A session whose two stored records have the same three compared fields has emitted
  \<open>status\<close>.\<close>

definition answered :: "LES \<Rightarrow> bool" where
  "answered s \<longleftrightarrow>
     (case (status s, peerStatus s) of
        (Some l, Some p) \<Rightarrow> agree l p \<longrightarrow> status_events s \<noteq> []
      | _ \<Rightarrow> True)"

section \<open>The code table of the specification\<close>

text \<open>
  The table of section 6 of the specification, row by row: code, name, minimum version.
  \<open>spec_isCodeAllowed\<close> is the validation of section 4.1: a code is allowed at a version
  when the table has it with a minimum version that is not greater.
\<close>

definition spec_code_table :: "(nat \<times> string \<times> nat) list" where
  "spec_code_table =
    [(0x00, ''STATUS'', 1), (0x01, ''ANNOUNCE'', 1), (0x02, ''GET_BLOCK_HEADERS'', 1),
     (0x03, ''BLOCK_HEADERS'', 1), (0x04, ''GET_BLOCK_BODIES'', 1),
     (0x05, ''BLOCK_BODIES'', 1), (0x06, ''GET_RECEIPTS'', 1), (0x07, ''RECEIPTS'', 1),
     (0x08, ''GET_PROOFS'', 1), (0x09, ''PROOFS'', 1), (0x0a, ''GET_CONTRACT_CODES'', 1),
     (0x0b, ''CONTRACT_CODES'', 1), (0x0c, ''SEND_TX'', 1),
     (0x0d, ''GET_HEADER_PROOFS'', 1), (0x0e, ''HEADER_PROOFS'', 1),
     (0x0f, ''GET_PROOFS_V2'', 2), (0x10, ''PROOFS_V2'', 2),
     (0x11, ''GET_HELPER_TRIE_PROOFS'', 2), (0x12, ''HELPER_TRIE_PROOFS'', 2),
     (0x13, ''SEND_TX_V2'', 2), (0x14, ''GET_TX_STATUS'', 2), (0x15, ''TX_STATUS'', 2)]"

definition spec_min_version :: "nat \<Rightarrow> nat option" where
  "spec_min_version c = map_option snd (map_of spec_code_table c)"

definition spec_isCodeAllowed :: "nat \<Rightarrow> nat \<Rightarrow> bool" where
  "spec_isCodeAllowed v c = (case spec_min_version c of None \<Rightarrow> False | Some m \<Rightarrow> m \<le> v)"

text \<open>The codes a descriptor's version makes legal, as the class's two \<open>switch\<close>es have them:
  \<open>STATUS\<close>, the first group from version 1 on, the second group from version 2 on.\<close>

definition legal_codes :: "nat \<Rightarrow> nat list" where
  "legal_codes v =
    STATUS # (if v \<ge> d_version les then LES1_cases else []) @
    (if v \<ge> d_version les2 then LES2_cases else [])"

section \<open>An instance of the collaborators\<close>

text \<open>
  Modelled from the spec: the collaborators of section 6, to run the session on concrete
  messages. Numeric fields are ``variable-length big-endian byte strings with no leading
  zero byte, minimally encoded''; the codec is the ``length-prefixed recursive binary
  encoding'' (RLP), whose decoder fails on ``truncated length prefixes, trailing
  garbage''. The decoder counts its recursive calls down from a bound that grows with
  the input.
\<close>

function spec_int2buffer :: "nat \<Rightarrow> buffer" where
  "spec_int2buffer n =
    (if n = 0 then [] else spec_int2buffer (n div 256) @ [of_nat (n mod 256)])"
  by pat_completeness auto
termination
  by (relation "measure id") auto

definition be_nat :: "buffer \<Rightarrow> nat" where
  "be_nat bs = foldl (\<lambda>n b. n * 256 + unat b) 0 bs"

definition encode_length :: "nat \<Rightarrow> nat \<Rightarrow> buffer" where
  "encode_length len offset =
    (if len < 56 then [of_nat (len + offset)]
     else let bl = spec_int2buffer len in of_nat (length bl + offset + 55) # bl)"

fun spec_rlp_encode :: "rlp \<Rightarrow> buffer" where
  "spec_rlp_encode (Buffer b) =
    (if length b = 1 \<and> unat (hd b) < 0x80 then b else encode_length (length b) 0x80 @ b)"
| "spec_rlp_encode (Array xs) =
    (let body = concat (map spec_rlp_encode xs) in encode_length (length body) 0xc0 @ body)"

fun decode_item :: "nat \<Rightarrow> buffer \<Rightarrow> (rlp \<times> buffer) option"
  and decode_items :: "nat \<Rightarrow> buffer \<Rightarrow> rlp list option" where
  "decode_item 0 bs = None"
| "decode_item (Suc k) [] = None"
| "decode_item (Suc k) (b # bs) =
    (let f = unat b in
     if f < 0x80 then Some (Buffer [b], bs)
     else if f \<le> 0xb7 then
       (let n = f - 0x80 in
        if length bs < n then None else Some (Buffer (take n bs), drop n bs))
     else if f \<le> 0xbf then
       (let ll = f - 0xb7; n = be_nat (take ll bs) in
        if length bs < ll + n then None
        else Some (Buffer (take n (drop ll bs)), drop (ll + n) bs))
     else if f \<le> 0xf7 then
       (let n = f - 0xc0 in
        if length bs < n then None
        else (case decode_items k (take n bs) of
                None \<Rightarrow> None
              | Some xs \<Rightarrow> Some (Array xs, drop n bs)))
     else
       (let ll = f - 0xf7; n = be_nat (take ll bs) in
        if length bs < ll + n then None
        else (case decode_items k (take n (drop ll bs)) of
                None \<Rightarrow> None
              | Some xs \<Rightarrow> Some (Array xs, drop (ll + n) bs))))"
| "decode_items 0 bs = None"
| "decode_items (Suc k) [] = Some []"
| "decode_items (Suc k) (b # bs) =
    (case decode_item k (b # bs) of
       None \<Rightarrow> None
     | Some (x, rest) \<Rightarrow> map_option ((#) x) (decode_items k rest))"

definition spec_rlp_decode :: "buffer \<Rightarrow> rlp option" where
  "spec_rlp_decode data =
    (case decode_item (2 * length data + 2) data of
       Some (v, []) \<Rightarrow> Some v
     | _ \<Rightarrow> None)"

text \<open>
  Modelled from the spec: \<open>buffer2int\<close> of \<open>../util\<close> and \<open>Buffer.from\<close> on an Array, as far as
  the instance needs them. The fields of a status are ``opaque byte strings'': on a
  Buffer, and on an Array, \<open>buffer2int\<close> returns a number; \<open>undefined\<close> and \<open>null\<close> have no
  length for it to read. \<open>Buffer.from\<close> makes one byte of each element of an Array; the
  instance takes that byte to be zero.
\<close>

fun spec_buffer2int :: "jsval \<Rightarrow> error option" where
  "spec_buffer2int Null = Some TypeError"
| "spec_buffer2int Undefined = Some TypeError"
| "spec_buffer2int _ = None"

definition spec_deps :: deps where
  "spec_deps =
    \<lparr>rlp_decode = spec_rlp_decode, rlp_encode = spec_rlp_encode,
     int2buffer = spec_int2buffer, buffer2int = spec_buffer2int,
     Buffer_from_array = map (\<lambda>x. 0)\<rparr>"

section \<open>Example messages\<close>

text \<open>
  A local status (network 1, genesis \<open>05\<close>) and five inbound payloads: a peer status of the
  same version, network and genesis; one of network 2; one of version 2; two items one
  after the other, which is no encoding of a value; and a list whose prefix announces six
  bytes of which one is there.
\<close>

definition local_arg :: status_arg where
  "local_arg = \<lparr>networkId = 1, headTd = [2], headHash = [3], headNum = [4], genesisHash = [5]\<rparr>"

definition peer_same :: buffer where
  "peer_same = [0xc6, 1, 1, 7, 8, 9, 5]"

definition peer_net2 :: buffer where
  "peer_net2 = [0xc6, 1, 2, 7, 8, 9, 5]"

definition peer_v2 :: buffer where
  "peer_v2 = [0xc6, 2, 1, 7, 8, 9, 5]"

definition garbage :: buffer where
  "garbage = [1, 2]"

definition truncated_list :: buffer where
  "truncated_list = [0xc6, 1]"

section \<open>The message codes as ranges\<close>

lemmas code_defs = STATUS_def ANNOUNCE_def GET_BLOCK_HEADERS_def BLOCK_HEADERS_def
  GET_BLOCK_BODIES_def BLOCK_BODIES_def GET_RECEIPTS_def RECEIPTS_def GET_PROOFS_def
  PROOFS_def GET_CONTRACT_CODES_def CONTRACT_CODES_def GET_HEADER_PROOFS_def
  HEADER_PROOFS_def SEND_TX_def GET_PROOFS_V2_def PROOFS_V2_def
  GET_HELPER_TRIE_PROOFS_def HELPER_TRIE_PROOFS_def SEND_TX_V2_def GET_TX_STATUS_def
  TX_STATUS_def

lemma LES1_mem: "c \<in> set LES1_cases \<longleftrightarrow> 1 \<le> c \<and> c \<le> 14"
  unfolding LES1_cases_def code_defs by (simp, presburger)

lemma LES2_mem: "c \<in> set LES2_cases \<longleftrightarrow> 15 \<le> c \<and> c \<le> 21"
  unfolding LES2_cases_def code_defs by (simp, presburger)

lemma spec_min_version_eq:
  "spec_min_version c = (if c \<le> 14 then Some 1 else if c \<le> 21 then Some 2 else None)"
  unfolding spec_min_version_def spec_code_table_def by (simp, presburger)

section \<open>The negotiation check\<close>

lemma is_status_arrayE:
  assumes "is_status_array l"
  obtains a0 a1 a2 a3 a4 a5 where
    "l = Array [Buffer a0, Buffer a1, Buffer a2, Buffer a3, Buffer a4, Buffer a5]"
  using assms by (induction l rule: is_status_array.induct) simp_all

lemma assertEq_Buffer:
  "assertEq (Value (Buffer a)) x msg =
     (if x = Value (Buffer a) then None else Some (AssertionError msg))"
  by (cases "(Value (Buffer a), x, msg)" rule: assertEq.cases) auto

lemma handleStatus_absent:
  "status s = None \<or> peerStatus s = None \<Longrightarrow> handleStatus env s = (Returned, s)"
  by (auto simp: handleStatus_def split: option.splits)

lemma handleStatus_fields:
  "status (snd (handleStatus env s)) = status s"
  "peerStatus (snd (handleStatus env s)) = peerStatus s"
  "version (snd (handleStatus env s)) = version s"
  by (auto simp: handleStatus_def clearTimeout_def emit_def Let_def split: option.splits)

lemma handleStatus_present:
  assumes "status s = Some l" "peerStatus s = Some p" "is_status_array l"
  shows "handleStatus env s =
    (if idx p 0 \<noteq> idx l 0 then (Threw (AssertionError ''Protocol version mismatch''), clearTimeout s)
     else if idx p 1 \<noteq> idx l 1 then (Threw (AssertionError ''NetworkId mismatch''), clearTimeout s)
     else if idx p 5 \<noteq> idx l 5 then (Threw (AssertionError ''Genesis block mismatch''), clearTimeout s)
     else (case status_summary env p of
             Some ev \<Rightarrow> (Returned, emit ev (clearTimeout s))
           | None \<Rightarrow> (Threw TypeError, clearTimeout s)))"
proof -
  from assms(3) obtain a0 a1 a2 a3 a4 a5 where
    l: "l = Array [Buffer a0, Buffer a1, Buffer a2, Buffer a3, Buffer a4, Buffer a5]"
    by (rule is_status_arrayE)
  show ?thesis
    using assms(1,2) unfolding l handleStatus_def
    by (simp add: assertEq_Buffer Let_def)
qed

lemma status_summary_agree:
  assumes "is_status_array l" "agree l p"
  shows "\<exists>td hh hn gh. Buffer_from env (idx p 2) = Inr td \<and> Buffer_from env (idx p 3) = Inr hh
           \<and> Buffer_from env (idx p 4) = Inr hn \<and> Buffer_from env (idx p 5) = Inr gh
           \<and> status_summary env p = Some (StatusEvent (idx p 1) td hh hn gh)"
proof -
  from assms(1) obtain a0 a1 a2 a3 a4 a5 where
    l: "l = Array [Buffer a0, Buffer a1, Buffer a2, Buffer a3, Buffer a4, Buffer a5]"
    by (rule is_status_arrayE)
  from assms(2) have p5: "idx p 5 = Value (Buffer a5)" by (simp add: agree_def l)
  then obtain xs where p: "p = Array xs" and len: "5 < length xs"
    by (cases p) (auto split: if_splits)
  have v: "\<exists>b. Buffer_from env (idx p k) = Inr b" if "k < 6" for k
  proof -
    from that len have "k < length xs" by simp
    then obtain x where "idx p k = Value x" by (simp add: p)
    then show ?thesis by (cases x) simp_all
  qed
  from v[of 2] v[of 3] v[of 4] v[of 5] show ?thesis
    by (auto simp: status_summary_def)
qed


section \<open>The effect log\<close>

lemma clearTimeout_simps [simp]:
  "status (clearTimeout s) = status s"
  "peerStatus (clearTimeout s) = peerStatus s"
  "version (clearTimeout s) = version s"
  "effects (clearTimeout s) = effects s @ [ClearTimeout]"
  "statusTimeout (clearTimeout s) = (if statusTimeout s = Armed then Cleared else statusTimeout s)"
  "status_events (clearTimeout s) = status_events s"
  "clears (clearTimeout s) = Suc (clears s)"
  by (simp_all add: clearTimeout_def status_events_def clears_def)

lemma emit_simps [simp]:
  "status (emit ev s) = status s"
  "peerStatus (emit ev s) = peerStatus s"
  "version (emit ev s) = version s"
  "statusTimeout (emit ev s) = statusTimeout s"
  "effects (emit ev s) = effects s @ [Emit ev]"
  "clears (emit ev s) = clears s"
  by (simp_all add: emit_def clears_def)

lemma send_simps [simp]:
  "status (send c b s) = status s"
  "peerStatus (send c b s) = peerStatus s"
  "version (send c b s) = version s"
  "statusTimeout (send c b s) = statusTimeout s"
  "effects (send c b s) = effects s @ [Send c b]"
  "status_events (send c b s) = status_events s"
  "clears (send c b s) = clears s"
  by (simp_all add: send_def status_events_def clears_def)

lemma timeout_fires_simps [simp]:
  "status (timeout_fires s) = status s"
  "peerStatus (timeout_fires s) = peerStatus s"
  "version (timeout_fires s) = version s"
  "status_events (timeout_fires s) = status_events s"
  "clears (timeout_fires s) = clears s"
  by (simp_all add: timeout_fires_def status_events_def clears_def)

lemma status_events_emit_message [simp]:
  "status_events (emit (MessageEvent c v) s) = status_events s"
  by (simp add: emit_def status_events_def)

lemma status_summary_StatusEvent:
  "status_summary env p = Some ev \<Longrightarrow> status_events (emit ev s) = status_events s @ [Emit ev]"
  by (auto simp: status_summary_def emit_def status_events_def split: sum.splits)

lemma update_simps [simp]:
  "status_events (s\<lparr>status := x\<rparr>) = status_events s"
  "status_events (s\<lparr>peerStatus := y\<rparr>) = status_events s"
  "clears (s\<lparr>status := x\<rparr>) = clears s"
  "clears (s\<lparr>peerStatus := y\<rparr>) = clears s"
  by (simp_all add: status_events_def clears_def)

section \<open>The invariant of executions\<close>

lemma handleStatus_settles:
  assumes "status s = Some l" "is_status_array l" "status_events s = []" "clears s = 0"
  shows "session_inv env (snd (handleStatus env s))"
proof (cases "peerStatus s")
  case None
  then show ?thesis using assms by (simp add: handleStatus_absent session_inv_def)
next
  case (Some p)
  show ?thesis
    using assms Some
    by (auto simp: handleStatus_present[OF assms(1) Some assms(2)] session_inv_def agree_def
        status_summary_StatusEvent split: option.splits)
qed

lemma step_settled:
  assumes "status s \<noteq> None" "peerStatus s \<noteq> None"
  shows "status (step env s x) = status s \<and> peerStatus (step env s x) = peerStatus s \<and>
         status_events (step env s x) = status_events s \<and> clears (step env s x) = clears s"
proof (cases x)
  case (SendStatus st)
  then show ?thesis using assms by (simp add: sendStatus_def)
next
  case (SendMessage c v)
  then show ?thesis by (simp add: sendMessage_def)
next
  case (HandleMessage c d)
  then show ?thesis using assms
    by (auto simp: handleMessage_def null_or_def split: option.splits)
next
  case TimeoutFires
  then show ?thesis by simp
qed

lemma session_inv_step:
  assumes "session_inv env s"
  shows "session_inv env (step env s x)"
proof (cases "status s \<noteq> None \<and> peerStatus s \<noteq> None")
  case True
  with step_settled[of s env x] assms show ?thesis
    by (auto simp: session_inv_def)
next
  case False
  then have zero: "status_events s = []" "clears s = 0"
    using assms by (auto simp: session_inv_def)
  show ?thesis
  proof (cases x)
    case (SendStatus st)
    show ?thesis
    proof (cases "status s")
      case None
      let ?l = "Array [Buffer (int2buffer env (version s)), Buffer (int2buffer env (networkId st)),
                      Buffer (headTd st), Buffer (headHash st),
                      Buffer (headNum st), Buffer (genesisHash st)]"
      show ?thesis
      proof (cases "getStatusString env ?l")
        case gNone: None
        have "session_inv env (snd (handleStatus env (send STATUS (rlp_encode env ?l) (s\<lparr>status := Some ?l\<rparr>))))"
          by (rule handleStatus_settles[where l = ?l]) (simp_all add: zero)
        then show ?thesis using SendStatus None gNone by (simp add: sendStatus_def Let_def)
      next
        case (Some e)
        then show ?thesis using SendStatus None zero
          by (simp add: sendStatus_def Let_def session_inv_def)
      qed
    next
      case (Some l)
      then show ?thesis using SendStatus assms by (simp add: sendStatus_def)
    qed
  next
    case (SendMessage c v)
    then show ?thesis using assms by (auto simp: sendMessage_def session_inv_def)
  next
    case (HandleMessage c d)
    show ?thesis
    proof (cases "rlp_decode env d")
      case None
      then show ?thesis using HandleMessage assms by (simp add: handleMessage_def)
    next
      case (Some payload)
      show ?thesis
      proof (cases "c = STATUS")
        case notS: False
        then show ?thesis using HandleMessage Some assms
          by (auto simp: handleMessage_def session_inv_def)
      next
        case True
        show ?thesis
        proof (cases "peerStatus s")
          case pSome: (Some p)
          then show ?thesis using HandleMessage Some True assms
            by (simp add: handleMessage_def null_or_def)
        next
          case None
          let ?s1 = "s\<lparr>peerStatus := Some payload\<rparr>"
          have shape: "case status s of None \<Rightarrow> True | Some l \<Rightarrow> is_status_array l"
            using assms by (simp add: session_inv_def)
          have s1: "session_inv env ?s1"
            using shape zero by (simp add: session_inv_def)
          have hs: "session_inv env (snd (handleStatus env ?s1))"
          proof (cases "status s")
            case lNone: None
            then show ?thesis using s1 by (simp add: handleStatus_absent)
          next
            case (Some l)
            with shape have "is_status_array l" by simp
            then show ?thesis
              using Some zero by (intro handleStatus_settles[where l = l]) simp_all
          qed
          show ?thesis
            using HandleMessage Some True None s1 hs
            by (simp add: handleMessage_def null_or_def Let_def split: option.splits)
        qed
      qed
    qed
  next
    case TimeoutFires
    then show ?thesis using assms by (auto simp: session_inv_def)
  qed
qed


lemma session_inv_new: "session_inv env (new_LES v)"
  by (simp add: session_inv_def new_LES_def status_events_def clears_def)

lemma session_inv_run: "session_inv env s \<Longrightarrow> session_inv env (run env s ops)"
  by (induction ops arbitrary: s) (simp_all add: session_inv_step)

lemma run_settled:
  assumes "status s \<noteq> None" "peerStatus s \<noteq> None"
  shows "status (run env s ops) = status s \<and> peerStatus (run env s ops) = peerStatus s \<and>
         status_events (run env s ops) = status_events s \<and> clears (run env s ops) = clears s"
  using assms
proof (induction ops arbitrary: s)
  case Nil
  then show ?case by simp
next
  case (Cons x xs)
  from step_settled[OF Cons.prems, of env x]
  have eq: "status (step env s x) = status s" "peerStatus (step env s x) = peerStatus s"
    "status_events (step env s x) = status_events s" "clears (step env s x) = clears s"
    by simp_all
  with Cons.prems have "status (step env s x) \<noteq> None" "peerStatus (step env s x) \<noteq> None"
    by simp_all
  from Cons.IH[OF this] eq show ?case by simp
qed

lemma run_append: "run env s (xs @ ys) = run env (run env s xs) ys"
  by (induction xs arbitrary: s) simp_all

section \<open>The timer\<close>

lemma handleStatus_result:
  "snd (handleStatus env s) = s \<or> snd (handleStatus env s) = clearTimeout s \<or>
   (\<exists>ev. snd (handleStatus env s) = emit ev (clearTimeout s))"
  by (auto simp: handleStatus_def Let_def split: option.splits)

lemma handleStatus_timer:
  assumes "statusTimeout s = Cleared \<longrightarrow> 0 < clears s"
  shows "statusTimeout (snd (handleStatus env s)) = Cleared \<longrightarrow>
         0 < clears (snd (handleStatus env s))"
  using handleStatus_result[of env s] assms by auto

lemma timer_step:
  assumes "statusTimeout s = Cleared \<longrightarrow> 0 < clears s"
  shows "statusTimeout (step env s x) = Cleared \<longrightarrow> 0 < clears (step env s x)"
proof (cases x)
  case (SendStatus st)
  let ?l = "Array [Buffer (int2buffer env (version s)), Buffer (int2buffer env (networkId st)),
                  Buffer (headTd st), Buffer (headHash st),
                  Buffer (headNum st), Buffer (genesisHash st)]"
  let ?s2 = "send STATUS (rlp_encode env ?l) (s\<lparr>status := Some ?l\<rparr>)"
  have "statusTimeout ?s2 = Cleared \<longrightarrow> 0 < clears ?s2"
    using assms by simp
  from handleStatus_timer[OF this, of env] show ?thesis
    using SendStatus assms by (simp add: sendStatus_def Let_def split: option.splits)
next
  case (SendMessage c v)
  then show ?thesis using assms by (auto simp: sendMessage_def)
next
  case (HandleMessage c d)
  show ?thesis
  proof (cases "rlp_decode env d")
    case None
    then show ?thesis using HandleMessage assms by (simp add: handleMessage_def)
  next
    case (Some payload)
    let ?s1 = "s\<lparr>peerStatus := Some payload\<rparr>"
    have "statusTimeout ?s1 = Cleared \<longrightarrow> 0 < clears ?s1"
      using assms by simp
    from handleStatus_timer[OF this, of env] show ?thesis
      using HandleMessage Some assms
      by (simp add: handleMessage_def Let_def split: option.splits)
  qed
next
  case TimeoutFires
  then show ?thesis using assms by (auto simp: timeout_fires_def)
qed

lemma timer_run:
  "statusTimeout s = Cleared \<longrightarrow> 0 < clears s \<Longrightarrow>
   statusTimeout (run env s ops) = Cleared \<longrightarrow> 0 < clears (run env s ops)"
  by (induction ops arbitrary: s) (simp_all add: timer_step)

section \<open>Agreeing records are answered\<close>

lemma agree_peer_array:
  assumes "is_status_array l" "agree l p"
  obtains xs where "p = Array xs" "5 < length xs"
proof -
  from assms(1) obtain a0 a1 a2 a3 a4 a5 where
    l: "l = Array [Buffer a0, Buffer a1, Buffer a2, Buffer a3, Buffer a4, Buffer a5]"
    by (rule is_status_arrayE)
  from assms(2) have "idx p 5 = Value (Buffer a5)" by (simp add: agree_def l)
  then have "\<exists>xs. p = Array xs \<and> 5 < length xs"
    by (cases p) (auto split: if_splits)
  with that show ?thesis by blast
qed

lemma getStatusString_array:
  assumes "\<forall>x. buffer2int env (Value x) = None" and "5 < length xs"
  shows "getStatusString env (Array xs) = None"
proof -
  have "idx (Array xs) k = Value (xs ! k)" if "k < 6" for k
    using that assms(2) by simp
  then show ?thesis
    using assms(1) by (simp add: getStatusString_def del: idx.simps)
qed

lemma handleStatus_agree_emits:
  assumes "status s = Some l" "peerStatus s = Some p" "is_status_array l" "agree l p"
  shows "status_events (snd (handleStatus env s)) \<noteq> []"
proof -
  from status_summary_agree[OF assms(3,4), of env] obtain ev where
    ev: "status_summary env p = Some ev" by blast
  have "handleStatus env s = (Returned, emit ev (clearTimeout s))"
    using assms(4) ev unfolding handleStatus_present[OF assms(1,2,3)]
    by (simp add: agree_def)
  then show ?thesis by (simp add: status_summary_StatusEvent[OF ev])
qed

lemma handleStatus_answered:
  assumes "case status s of None \<Rightarrow> True | Some l \<Rightarrow> is_status_array l"
  shows "answered (snd (handleStatus env s))"
proof (cases "status s")
  case None
  then show ?thesis by (simp add: answered_def handleStatus_fields)
next
  case (Some l)
  with assms have shape: "is_status_array l" by simp
  show ?thesis
  proof (cases "peerStatus s")
    case None
    then show ?thesis using Some by (simp add: answered_def handleStatus_fields)
  next
    case p: (Some p)
    show ?thesis
      using handleStatus_agree_emits[OF Some p shape, of env] Some p
      by (simp add: answered_def handleStatus_fields)
  qed
qed

lemma answered_step:
  assumes b2i: "\<forall>x. buffer2int env (Value x) = None"
      and i: "session_inv env s" and a: "answered s"
  shows "answered (step env s x)"
proof (cases "status s \<noteq> None \<and> peerStatus s \<noteq> None")
  case True
  with step_settled[of s env x] a show ?thesis
    by (auto simp: answered_def)
next
  case False
  from i have shape: "case status s of None \<Rightarrow> True | Some l \<Rightarrow> is_status_array l"
    by (simp add: session_inv_def)
  show ?thesis
  proof (cases x)
    case (SendStatus st)
    show ?thesis
    proof (cases "status s")
      case None
      let ?l = "Array [Buffer (int2buffer env (version s)), Buffer (int2buffer env (networkId st)),
                      Buffer (headTd st), Buffer (headHash st),
                      Buffer (headNum st), Buffer (genesisHash st)]"
      have g: "getStatusString env ?l = None"
        by (rule getStatusString_array[OF b2i]) simp
      have "answered (snd (handleStatus env (send STATUS (rlp_encode env ?l) (s\<lparr>status := Some ?l\<rparr>))))"
        by (rule handleStatus_answered) simp
      then show ?thesis using SendStatus None g by (simp add: sendStatus_def Let_def)
    next
      case (Some l)
      then show ?thesis using SendStatus a by (simp add: sendStatus_def)
    qed
  next
    case (SendMessage c v)
    then show ?thesis using a
      by (auto simp: sendMessage_def answered_def split: option.splits)
  next
    case (HandleMessage c d)
    show ?thesis
    proof (cases "rlp_decode env d")
      case None
      then show ?thesis using HandleMessage a by (simp add: handleMessage_def)
    next
      case (Some payload)
      show ?thesis
      proof (cases "c = STATUS")
        case notS: False
        then show ?thesis using HandleMessage Some a
          by (auto simp: handleMessage_def answered_def split: option.splits)
      next
        case True
        show ?thesis
        proof (cases "peerStatus s")
          case pSome: (Some p)
          then show ?thesis using HandleMessage Some True a
            by (simp add: handleMessage_def null_or_def)
        next
          case None
          let ?s1 = "s\<lparr>peerStatus := Some payload\<rparr>"
          have hs: "answered (snd (handleStatus env ?s1))"
            by (rule handleStatus_answered) (use shape in simp)
          have thrown: "answered ?s1" if "getStatusString env payload \<noteq> None"
          proof (cases "status s")
            case lNone: None
            then show ?thesis by (simp add: answered_def)
          next
            case l: (Some l)
            with shape have sh: "is_status_array l" by simp
            have "\<not> agree l payload"
            proof
              assume "agree l payload"
              with sh obtain xs where "payload = Array xs" "5 < length xs"
                by (rule agree_peer_array)
              with getStatusString_array[OF b2i, of xs] that show False by simp
            qed
            then show ?thesis using l by (simp add: answered_def)
          qed
          show ?thesis
            using HandleMessage Some True None hs thrown
            by (auto simp: handleMessage_def null_or_def Let_def split: option.splits)
        qed
      qed
    qed
  next
    case TimeoutFires
    then show ?thesis using a by (auto simp: answered_def split: option.splits)
  qed
qed

lemma answered_run:
  assumes "\<forall>x. buffer2int env (Value x) = None"
  shows "session_inv env s \<Longrightarrow> answered s \<Longrightarrow> answered (run env s ops)"
  by (induction ops arbitrary: s) (simp_all add: session_inv_step answered_step[OF assms])

lemma answered_new: "answered (new_LES v)"
  by (simp add: answered_def new_LES_def)

section \<open>The local status\<close>

lemma sendStatus_sets_status: "status (snd (sendStatus env s st)) \<noteq> None"
  by (simp add: sendStatus_def Let_def handleStatus_fields split: option.splits)

section \<open>The example messages, decoded\<close>

lemma decode_peer_same:
  "rlp_decode spec_deps peer_same =
     Some (Array [Buffer [1], Buffer [1], Buffer [7], Buffer [8], Buffer [9], Buffer [5]])"
  by code_simp

lemma decode_peer_net2:
  "rlp_decode spec_deps peer_net2 =
     Some (Array [Buffer [1], Buffer [2], Buffer [7], Buffer [8], Buffer [9], Buffer [5]])"
  by code_simp

lemma decode_peer_v2:
  "rlp_decode spec_deps peer_v2 =
     Some (Array [Buffer [2], Buffer [1], Buffer [7], Buffer [8], Buffer [9], Buffer [5]])"
  by code_simp

lemma decode_garbage: "rlp_decode spec_deps garbage = None"
  by code_simp

lemma decode_truncated_list: "rlp_decode spec_deps truncated_list = None"
  by code_simp

section \<open>Legal codes\<close>

lemma legal_codes_sendMessage:
  "c \<in> set (legal_codes v) \<longleftrightarrow>
     c = STATUS \<or> fst (sendMessage env (s\<lparr>version := v\<rparr>) c payload) = Returned"
  by (auto simp: legal_codes_def sendMessage_def les_def les2_def)

section \<open>Claims\<close>

text \<open>
  C1. When both status records are present, the negotiation check compares field 0
  (protocol version), field 1 (network identifier) and field 5 (genesis identifier) of
  the local record \<open>l\<close> and the peer record \<open>p\<close>. If one of them differs, \<open>_handleStatus\<close>
  throws the assertion error labelled with the first field that differs and emits
  nothing; whatever is called afterwards, no \<open>status\<close> event is emitted; and no execution
  of a session that holds these two records ever has the session negotiated.
\<close>

theorem negotiation_mismatch_fails:
  assumes "is_status_array l"
      and "status s = Some l" and "peerStatus s = Some p"
      and "idx l 0 \<noteq> idx p 0 \<or> idx l 1 \<noteq> idx p 1 \<or> idx l 5 \<noteq> idx p 5"
  shows "handleStatus env s =
           (Threw (AssertionError
              (if idx l 0 \<noteq> idx p 0 then ''Protocol version mismatch''
               else if idx l 1 \<noteq> idx p 1 then ''NetworkId mismatch''
               else ''Genesis block mismatch'')),
            clearTimeout s) \<and>
         (\<forall>ops. status_events (run env (snd (handleStatus env s)) ops) = status_events s) \<and>
         (\<forall>v before after.
            status (run env (new_LES v) before) = Some l \<and>
            peerStatus (run env (new_LES v) before) = Some p \<longrightarrow>
            \<not> negotiated (run env (new_LES v) (before @ after)))"
proof (intro conjI allI impI)
  show call: "handleStatus env s =
           (Threw (AssertionError
              (if idx l 0 \<noteq> idx p 0 then ''Protocol version mismatch''
               else if idx l 1 \<noteq> idx p 1 then ''NetworkId mismatch''
               else ''Genesis block mismatch'')),
            clearTimeout s)"
    using assms(4) unfolding handleStatus_present[OF assms(2,3,1)] by auto
  show "status_events (run env (snd (handleStatus env s)) ops) = status_events s" for ops
  proof -
    have "status (clearTimeout s) \<noteq> None" "peerStatus (clearTimeout s) \<noteq> None"
      using assms(2,3) by simp_all
    from run_settled[OF this, of env ops] show ?thesis by (simp add: call)
  qed
next
  fix v before after
  assume reach: "status (run env (new_LES v) before) = Some l \<and>
            peerStatus (run env (new_LES v) before) = Some p"
  let ?s1 = "run env (new_LES v) before"
  let ?s2 = "run env (new_LES v) (before @ after)"
  have s2: "?s2 = run env ?s1 after" by (rule run_append)
  from reach have "status ?s1 \<noteq> None" "peerStatus ?s1 \<noteq> None" by simp_all
  from run_settled[OF this, of env after] reach s2
  have st: "status ?s2 = Some l" "peerStatus ?s2 = Some p" by simp_all
  have "session_inv env ?s2" by (rule session_inv_run[OF session_inv_new])
  then have "status_events ?s2 = [] \<or> agree l p"
    using st by (auto simp: session_inv_def)
  moreover have "\<not> agree l p" using assms(4) by (auto simp: agree_def)
  ultimately show "\<not> negotiated ?s2" by (simp add: negotiated_def)
qed

text \<open>The scenario of the specification: network 1 against network 2, same genesis.\<close>

theorem negotiation_mismatch_fails_witness:
  "handleStatus spec_deps
     ((new_LES 1)\<lparr>status := Some (Array [Buffer [1], Buffer [1], Buffer [2], Buffer [3], Buffer [4], Buffer [5]]),
                  peerStatus := Some (Array [Buffer [1], Buffer [2], Buffer [7], Buffer [8], Buffer [9], Buffer [5]])\<rparr>) =
     (Threw (AssertionError ''NetworkId mismatch''),
      (new_LES 1)\<lparr>status := Some (Array [Buffer [1], Buffer [1], Buffer [2], Buffer [3], Buffer [4], Buffer [5]]),
                  peerStatus := Some (Array [Buffer [1], Buffer [2], Buffer [7], Buffer [8], Buffer [9], Buffer [5]]),
                  statusTimeout := Cleared, effects := [ClearTimeout]\<rparr>) \<and>
   fst (handleMessage spec_deps (run spec_deps (new_LES 1) [SendStatus local_arg]) STATUS peer_net2) =
     Threw (AssertionError ''NetworkId mismatch'') \<and>
   \<not> negotiated (run spec_deps (new_LES 1)
        ([SendStatus local_arg, HandleMessage STATUS peer_net2] @
         [HandleMessage STATUS peer_same, SendStatus local_arg, TimeoutFires]))"
proof -
  let ?l = "Array [Buffer [1], Buffer [1], Buffer [2], Buffer [3], Buffer [4], Buffer [5]]"
  let ?p = "Array [Buffer [1], Buffer [2], Buffer [7], Buffer [8], Buffer [9], Buffer [5]]"
  let ?s = "(new_LES 1)\<lparr>status := Some ?l, peerStatus := Some ?p\<rparr>"
  have h1: "is_status_array ?l" by simp
  have h2: "status ?s = Some ?l" by simp
  have h3: "peerStatus ?s = Some ?p" by simp
  have h4: "idx ?l 0 \<noteq> idx ?p 0 \<or> idx ?l 1 \<noteq> idx ?p 1 \<or> idx ?l 5 \<noteq> idx ?p 5" by simp
  have r: "status (run spec_deps (new_LES 1) [SendStatus local_arg, HandleMessage STATUS peer_net2]) = Some ?l \<and>
      peerStatus (run spec_deps (new_LES 1) [SendStatus local_arg, HandleMessage STATUS peer_net2]) = Some ?p"
    by code_simp
  have m: "fst (handleMessage spec_deps (run spec_deps (new_LES 1) [SendStatus local_arg]) STATUS peer_net2) =
     Threw (AssertionError ''NetworkId mismatch'')"
    by code_simp
  note T = negotiation_mismatch_fails[OF h1 h2 h3 h4, of spec_deps]
  from T have a: "handleStatus spec_deps ?s =
      (Threw (AssertionError ''NetworkId mismatch''), clearTimeout ?s)"
    by simp
  from T r have b: "\<not> negotiated (run spec_deps (new_LES 1)
        ([SendStatus local_arg, HandleMessage STATUS peer_net2] @
         [HandleMessage STATUS peer_same, SendStatus local_arg, TimeoutFires]))"
    by blast
  have c: "clearTimeout ?s = (new_LES 1)\<lparr>status := Some ?l, peerStatus := Some ?p,
      statusTimeout := Cleared, effects := [ClearTimeout]\<rparr>"
    by (simp add: new_LES_def clearTimeout_def)
  show ?thesis using a b m unfolding c by blast
qed

text \<open>
  C2, as amended. On a session whose peer status is stored, \<open>_handleMessage\<close> with code
  \<open>STATUS\<close> fails and leaves the session as it was, the stored peer status included: with
  the assertion error \<open>Uncontrolled status message\<close> when the payload decodes, with the
  decoder's error when it does not (the payload is decoded first).
\<close>

theorem second_status_rejected:
  "peerStatus s \<noteq> None \<Longrightarrow>
   handleMessage env s STATUS data =
     (Threw (case rlp_decode env data of
               None \<Rightarrow> DecodeError
             | Some payload \<Rightarrow> AssertionError ''Uncontrolled status message''), s)"
  by (auto simp: handleMessage_def null_or_def split: option.splits)

theorem second_status_rejected_witness:
  "peerStatus (run spec_deps (new_LES 1) [HandleMessage STATUS peer_same]) =
     Some (Array [Buffer [1], Buffer [1], Buffer [7], Buffer [8], Buffer [9], Buffer [5]]) \<and>
   handleMessage spec_deps (run spec_deps (new_LES 1) [HandleMessage STATUS peer_same]) STATUS peer_net2 =
     (Threw (AssertionError ''Uncontrolled status message''),
      run spec_deps (new_LES 1) [HandleMessage STATUS peer_same])"
proof -
  have p: "peerStatus (run spec_deps (new_LES 1) [HandleMessage STATUS peer_same]) =
     Some (Array [Buffer [1], Buffer [1], Buffer [7], Buffer [8], Buffer [9], Buffer [5]])"
    by code_simp
  then have "peerStatus (run spec_deps (new_LES 1) [HandleMessage STATUS peer_same]) \<noteq> None"
    by simp
  from second_status_rejected[OF this, of spec_deps peer_net2] p show ?thesis
    by (simp add: decode_peer_net2)
qed

text \<open>The claim as stated fails on a second \<open>STATUS\<close> message whose payload does not decode,
  here a list cut short after its first byte: the call ends in the decoder's error, not in
  \<open>Uncontrolled status message\<close>.\<close>

theorem second_status_malformed_counterexample:
  "peerStatus (run spec_deps (new_LES 1) [HandleMessage STATUS peer_same]) =
     Some (Array [Buffer [1], Buffer [1], Buffer [7], Buffer [8], Buffer [9], Buffer [5]]) \<and>
   truncated_list = [0xc6, 1] \<and>
   handleMessage spec_deps (run spec_deps (new_LES 1) [HandleMessage STATUS peer_same])
       STATUS truncated_list =
     (Threw DecodeError, run spec_deps (new_LES 1) [HandleMessage STATUS peer_same]) \<and>
   fst (handleMessage spec_deps (run spec_deps (new_LES 1) [HandleMessage STATUS peer_same])
          STATUS truncated_list) \<noteq> Threw (AssertionError ''Uncontrolled status message'')"
proof -
  have p: "peerStatus (run spec_deps (new_LES 1) [HandleMessage STATUS peer_same]) =
     Some (Array [Buffer [1], Buffer [1], Buffer [7], Buffer [8], Buffer [9], Buffer [5]])"
    by code_simp
  have "handleMessage spec_deps s STATUS truncated_list = (Threw DecodeError, s)" for s
    by (simp add: handleMessage_def decode_truncated_list)
  with p show ?thesis by (simp add: truncated_list_def)
qed

text \<open>
  C3. On a session whose local status is set, \<open>sendStatus\<close> returns at once: the session
  is unchanged, so the local status keeps its value, nothing is sent and no other field
  changes. After any call of \<open>sendStatus\<close> the local status is set, so a second call is
  such a call.
\<close>

theorem sendStatus_second_call_noop:
  "(status s \<noteq> None \<longrightarrow> sendStatus env s st = (Returned, s)) \<and>
   sendStatus env (snd (sendStatus env s st1)) st2 = (Returned, snd (sendStatus env s st1))"
proof -
  have a: "sendStatus env s' st' = (Returned, s')" if "status s' \<noteq> None" for s' st'
    using that by (simp add: sendStatus_def)
  show ?thesis using a sendStatus_sets_status by blast
qed

theorem sendStatus_second_call_noop_witness:
  "status (snd (sendStatus spec_deps (new_LES 1) local_arg)) =
     Some (Array [Buffer [1], Buffer [1], Buffer [2], Buffer [3], Buffer [4], Buffer [5]]) \<and>
   effects (snd (sendStatus spec_deps (new_LES 1) local_arg)) =
     [Send STATUS [0xc6, 1, 1, 2, 3, 4, 5]] \<and>
   sendStatus spec_deps (snd (sendStatus spec_deps (new_LES 1) local_arg))
       \<lparr>networkId = 9, headTd = [9], headHash = [9], headNum = [9], genesisHash = [9]\<rparr> =
     (Returned, snd (sendStatus spec_deps (new_LES 1) local_arg))"
proof -
  have "status (snd (sendStatus spec_deps (new_LES 1) local_arg)) =
     Some (Array [Buffer [1], Buffer [1], Buffer [2], Buffer [3], Buffer [4], Buffer [5]])"
    by code_simp
  moreover have "effects (snd (sendStatus spec_deps (new_LES 1) local_arg)) =
     [Send STATUS [0xc6, 1, 1, 2, 3, 4, 5]]"
    by code_simp
  ultimately show ?thesis
    using sendStatus_second_call_noop[of "snd (sendStatus spec_deps (new_LES 1) local_arg)"
        spec_deps "\<lparr>networkId = 9, headTd = [9], headHash = [9], headNum = [9], genesisHash = [9]\<rparr>"]
    by simp
qed

text \<open>
  C4, as amended. The negotiation check leaves the session alone while a status record is
  missing. Once both are present it clears the deadline timer first and compares the
  fields afterwards: whatever the comparison gives, an armed timer is disarmed. In any
  execution the timer is cleared at most once, and not while a record is missing.
\<close>

theorem deadline_cleared_before_comparison:
  "(status s = None \<or> peerStatus s = None \<longrightarrow> handleStatus env s = (Returned, s)) \<and>
   (status s \<noteq> None \<and> peerStatus s \<noteq> None \<longrightarrow>
      statusTimeout (snd (handleStatus env s)) =
        (if statusTimeout s = Armed then Cleared else statusTimeout s) \<and>
      clears (snd (handleStatus env s)) = Suc (clears s)) \<and>
   clears (run env (new_LES v) ops) \<le> 1 \<and>
   (status (run env (new_LES v) ops) = None \<or> peerStatus (run env (new_LES v) ops) = None \<longrightarrow>
      clears (run env (new_LES v) ops) = 0 \<and> statusTimeout (run env (new_LES v) ops) \<noteq> Cleared)"
proof (intro conjI impI)
  assume "status s = None \<or> peerStatus s = None"
  then show "handleStatus env s = (Returned, s)" by (rule handleStatus_absent)
next
  assume "status s \<noteq> None \<and> peerStatus s \<noteq> None"
  then obtain l p where lp: "status s = Some l" "peerStatus s = Some p" by auto
  have after: "snd (handleStatus env s) = clearTimeout s \<or>
        (\<exists>ev. snd (handleStatus env s) = emit ev (clearTimeout s))"
    using lp by (auto simp: handleStatus_def Let_def split: option.splits)
  then show "statusTimeout (snd (handleStatus env s)) =
        (if statusTimeout s = Armed then Cleared else statusTimeout s)"
    by auto
  from after show "clears (snd (handleStatus env s)) = Suc (clears s)"
    by auto
next
  have i: "session_inv env (run env (new_LES v) ops)" by (rule session_inv_run[OF session_inv_new])
  then show "clears (run env (new_LES v) ops) \<le> 1" by (simp add: session_inv_def)
  assume "status (run env (new_LES v) ops) = None \<or> peerStatus (run env (new_LES v) ops) = None"
  with i show zero: "clears (run env (new_LES v) ops) = 0" by (simp add: session_inv_def)
  have "statusTimeout (run env (new_LES v) ops) = Cleared \<longrightarrow>
        0 < clears (run env (new_LES v) ops)"
    by (rule timer_run) (simp add: new_LES_def)
  with zero show "statusTimeout (run env (new_LES v) ops) \<noteq> Cleared" by simp
qed

theorem deadline_cleared_before_comparison_witness:
  "statusTimeout (run spec_deps (new_LES 1) [SendStatus local_arg]) = Armed \<and>
   handleStatus spec_deps (run spec_deps (new_LES 1) [SendStatus local_arg]) =
     (Returned, run spec_deps (new_LES 1) [SendStatus local_arg]) \<and>
   statusTimeout (snd (handleStatus spec_deps
     ((run spec_deps (new_LES 1) [SendStatus local_arg])
        \<lparr>peerStatus := Some (Array [Buffer [2], Buffer [1], Buffer [7], Buffer [8], Buffer [9], Buffer [5]])\<rparr>))) =
     Cleared \<and>
   clears (run spec_deps (new_LES 1)
     [SendStatus local_arg, HandleMessage STATUS peer_v2, HandleMessage STATUS peer_same,
      SendStatus local_arg]) \<le> 1"
proof -
  let ?r = "run spec_deps (new_LES 1) [SendStatus local_arg]"
  let ?p = "Array [Buffer [2], Buffer [1], Buffer [7], Buffer [8], Buffer [9], Buffer [5]]"
  have r: "statusTimeout ?r = Armed" "peerStatus ?r = None" "status ?r \<noteq> None"
    by code_simp+
  note T1 = deadline_cleared_before_comparison[of ?r spec_deps 1
      "[SendStatus local_arg, HandleMessage STATUS peer_v2, HandleMessage STATUS peer_same,
        SendStatus local_arg]"]
  note T2 = deadline_cleared_before_comparison[of "?r\<lparr>peerStatus := Some ?p\<rparr>" spec_deps 1 "[]"]
  from T1 r have a: "handleStatus spec_deps ?r = (Returned, ?r)" by blast
  from T2 r have b: "statusTimeout (snd (handleStatus spec_deps (?r\<lparr>peerStatus := Some ?p\<rparr>))) = Cleared"
    by simp
  from T1 have c: "clears (run spec_deps (new_LES 1)
     [SendStatus local_arg, HandleMessage STATUS peer_v2, HandleMessage STATUS peer_same,
      SendStatus local_arg]) \<le> 1" by blast
  from r(1) a b c show ?thesis by blast
qed

text \<open>The claim as stated fails: a peer status of another version arrives after the local
  status was sent; the comparison fails and the deadline, armed before, is disarmed.\<close>

theorem deadline_cleared_on_mismatch_counterexample:
  "statusTimeout (run spec_deps (new_LES 1) [SendStatus local_arg]) = Armed \<and>
   fst (handleMessage spec_deps (run spec_deps (new_LES 1) [SendStatus local_arg]) STATUS peer_v2) =
     Threw (AssertionError ''Protocol version mismatch'') \<and>
   statusTimeout (snd (handleMessage spec_deps (run spec_deps (new_LES 1) [SendStatus local_arg])
     STATUS peer_v2)) = Cleared \<and>
   statusTimeout (snd (handleMessage spec_deps (run spec_deps (new_LES 1) [SendStatus local_arg])
     STATUS peer_v2)) \<noteq> Armed"
  by code_simp

text \<open>
  C5. \<open>sendMessage\<close> against the code table of the specification. With code \<open>STATUS\<close> it
  throws the error that points to \<open>sendStatus\<close>; with a code the table does not have,
  \<open>Unknown code\<close>; with a code whose minimum version is above the session's, \<open>not allowed
  with version\<close>; otherwise it hands the code and the encoded payload to the transport.
  In each failure the session, its log of transmissions included, is unchanged. So the
  call succeeds exactly when the code is allowed at the session's version and is not
  \<open>STATUS\<close>.
\<close>

theorem sendMessage_by_code:
  "sendMessage env s c payload =
     (if c = STATUS then (Threw UseSendStatus, s)
      else case spec_min_version c of
             None \<Rightarrow> (Threw (UnknownCode c), s)
           | Some m \<Rightarrow>
               if m \<le> version s
               then (Returned, s\<lparr>effects := effects s @ [Send c (rlp_encode env payload)]\<rparr>)
               else (Threw (NotAllowed c (version s)), s)) \<and>
   (fst (sendMessage env s c payload) = Returned) =
     (spec_isCodeAllowed (version s) c \<and> c \<noteq> STATUS)"
  by (auto simp: sendMessage_def spec_isCodeAllowed_def spec_min_version_eq LES1_mem LES2_mem
      les_def les2_def STATUS_def send_def)

text \<open>The scenario of the specification, a version-2 session sending \<open>GET_TX_STATUS\<close>, and
  the three failures.\<close>

theorem sendMessage_by_code_witness:
  "sendMessage spec_deps (new_LES 2) GET_TX_STATUS (Array [Buffer [7]]) =
     (Returned, (new_LES 2)\<lparr>effects := [Send GET_TX_STATUS [0xc1, 7]]\<rparr>) \<and>
   sendMessage spec_deps (new_LES 1) GET_TX_STATUS (Array [Buffer [7]]) =
     (Threw (NotAllowed GET_TX_STATUS 1), new_LES 1) \<and>
   sendMessage spec_deps (new_LES 2) STATUS (Array [Buffer [7]]) =
     (Threw UseSendStatus, new_LES 2) \<and>
   sendMessage spec_deps (new_LES 2) 0x16 (Array [Buffer [7]]) =
     (Threw (UnknownCode 0x16), new_LES 2)"
proof -
  have enc: "rlp_encode spec_deps (Array [Buffer [7]]) = [0xc1, 7]"
    by code_simp
  show ?thesis
    using sendMessage_by_code[of spec_deps "new_LES 2" GET_TX_STATUS "Array [Buffer [7]]"]
      sendMessage_by_code[of spec_deps "new_LES 1" GET_TX_STATUS "Array [Buffer [7]]"]
      sendMessage_by_code[of spec_deps "new_LES 2" STATUS "Array [Buffer [7]]"]
      sendMessage_by_code[of spec_deps "new_LES 2" "0x16" "Array [Buffer [7]]"]
    by (simp add: enc spec_min_version_eq GET_TX_STATUS_def STATUS_def new_LES_def)
qed

text \<open>
  C6. An inbound message whose code is not \<open>STATUS\<close> and whose payload decodes: the call
  returns; when the code is allowed at the session's version, one \<open>message\<close> event with
  the code and the decoded payload is emitted and nothing else changes; when it is not
  (its minimum version is above the session's, or the table does not have it), the
  session is unchanged.
\<close>

theorem handleMessage_non_status:
  assumes "code \<noteq> STATUS" and "rlp_decode env data = Some payload"
  shows "handleMessage env s code data =
     (Returned,
      if spec_isCodeAllowed (version s) code
      then s\<lparr>effects := effects s @ [Emit (MessageEvent code payload)]\<rparr> else s) \<and>
     spec_isCodeAllowed (version s) code =
       (case spec_min_version code of None \<Rightarrow> False | Some m \<Rightarrow> \<not> version s < m)"
  using assms
  by (auto simp: handleMessage_def spec_isCodeAllowed_def spec_min_version_eq LES1_mem LES2_mem
      les_def les2_def STATUS_def emit_def)

text \<open>The scenario of the specification, a version-1 session receiving \<open>GET_PROOFS_V2\<close>;
  the same message on a version-2 session; and a code of no version.\<close>

theorem handleMessage_non_status_witness:
  "GET_PROOFS_V2 \<noteq> STATUS \<and>
   rlp_decode spec_deps peer_same =
     Some (Array [Buffer [1], Buffer [1], Buffer [7], Buffer [8], Buffer [9], Buffer [5]]) \<and>
   handleMessage spec_deps (new_LES 1) GET_PROOFS_V2 peer_same = (Returned, new_LES 1) \<and>
   handleMessage spec_deps (new_LES 2) GET_PROOFS_V2 peer_same =
     (Returned, (new_LES 2)\<lparr>effects := [Emit (MessageEvent GET_PROOFS_V2
        (Array [Buffer [1], Buffer [1], Buffer [7], Buffer [8], Buffer [9], Buffer [5]]))]\<rparr>) \<and>
   handleMessage spec_deps (new_LES 2) 0x16 peer_same = (Returned, new_LES 2)"
proof -
  have ne: "GET_PROOFS_V2 \<noteq> STATUS" "0x16 \<noteq> STATUS"
    by (simp_all add: GET_PROOFS_V2_def STATUS_def)
  show ?thesis
    using ne(1) decode_peer_same
      handleMessage_non_status[OF ne(1) decode_peer_same, of "new_LES 1"]
      handleMessage_non_status[OF ne(1) decode_peer_same, of "new_LES 2"]
      handleMessage_non_status[OF ne(2) decode_peer_same, of "new_LES 2"]
    by (simp add: spec_isCodeAllowed_def spec_min_version_eq GET_PROOFS_V2_def new_LES_def)
qed

text \<open>
  C7. A code that \<open>sendMessage\<close> accepts at version \<open>N\<close> it accepts at version \<open>N + 1\<close>; and
  a code it accepts at some version has a minimum version, from which on it is always
  accepted.
\<close>

theorem codes_monotone:
  "(fst (sendMessage env (s\<lparr>version := N\<rparr>) c payload) = Returned \<longrightarrow>
      fst (sendMessage env (s\<lparr>version := Suc N\<rparr>) c payload) = Returned) \<and>
   ((\<exists>V. fst (sendMessage env (s\<lparr>version := V\<rparr>) c payload) = Returned) \<longrightarrow>
      (\<exists>m. \<forall>V. (fst (sendMessage env (s\<lparr>version := V\<rparr>) c payload) = Returned) = (m \<le> V)))"
proof -
  have ok: "(fst (sendMessage env (s\<lparr>version := V\<rparr>) c payload) = Returned) =
      (if 1 \<le> c \<and> c \<le> 14 then 1 \<le> V else 15 \<le> c \<and> c \<le> 21 \<and> 2 \<le> V)" for V
    by (auto simp: sendMessage_def LES1_mem LES2_mem les_def les2_def STATUS_def)
  show ?thesis
  proof (cases "1 \<le> c \<and> c \<le> 14")
    case True
    then show ?thesis unfolding ok by auto
  next
    case False
    then show ?thesis unfolding ok by auto
  qed
qed

theorem codes_monotone_witness:
  "fst (sendMessage spec_deps (new_LES 1) ANNOUNCE (Array [])) = Returned \<and>
   fst (sendMessage spec_deps (new_LES 2) ANNOUNCE (Array [])) = Returned"
proof -
  have a: "fst (sendMessage spec_deps ((new_LES 1)\<lparr>version := 1\<rparr>) ANNOUNCE (Array [])) = Returned"
    by (simp add: sendMessage_def ANNOUNCE_def STATUS_def LES1_mem les_def new_LES_def)
  from codes_monotone[where env = spec_deps and s = "new_LES 1" and N = 1 and c = ANNOUNCE
      and payload = "Array []"] a
  have "fst (sendMessage spec_deps ((new_LES 1)\<lparr>version := Suc 1\<rparr>) ANNOUNCE (Array [])) = Returned"
    by blast
  with a show ?thesis by (simp add: new_LES_def numeral_2_eq_2)
qed

text \<open>
  C8. When both records are present and their version, network and genesis fields are
  the same, \<open>_handleStatus\<close> returns and emits, after clearing the timer, one \<open>status\<close> event
  with the peer's network id (field 1) and copies of the peer's head weight, head hash,
  head number and genesis hash (fields 2 to 5 of the stored peer status). No execution
  emits \<open>status\<close> twice, and an emitted \<open>status\<close> event is the one built from the stored peer
  status. Where \<open>buffer2int\<close> throws on no Buffer and no Array, every execution that
  reaches two such records has emitted \<open>status\<close> exactly once.
\<close>

theorem negotiation_success_emits_status_once:
  assumes "is_status_array l"
      and "status s = Some l" and "peerStatus s = Some p"
      and "agree l p"
  shows "(\<exists>td hh hn gh.
            Buffer_from env (idx p 2) = Inr td \<and> Buffer_from env (idx p 3) = Inr hh \<and>
            Buffer_from env (idx p 4) = Inr hn \<and> Buffer_from env (idx p 5) = Inr gh \<and>
            fst (handleStatus env s) = Returned \<and>
            effects (snd (handleStatus env s)) =
              effects s @ [ClearTimeout, Emit (StatusEvent (idx p 1) td hh hn gh)]) \<and>
         (\<forall>v ops. length (status_events (run env (new_LES v) ops)) \<le> 1) \<and>
         (\<forall>v ops. status_events (run env (new_LES v) ops) = [] \<or>
            (\<exists>q ev. peerStatus (run env (new_LES v) ops) = Some q \<and>
               status_summary env q = Some ev \<and>
               status_events (run env (new_LES v) ops) = [Emit ev])) \<and>
         ((\<forall>x. buffer2int env (Value x) = None) \<longrightarrow>
            (\<forall>v ops l' p'.
               status (run env (new_LES v) ops) = Some l' \<and>
               peerStatus (run env (new_LES v) ops) = Some p' \<and> agree l' p' \<longrightarrow>
               length (status_events (run env (new_LES v) ops)) = 1))"
proof (intro conjI allI impI)
  from status_summary_agree[OF assms(1,4), of env] obtain td hh hn gh where
    b: "Buffer_from env (idx p 2) = Inr td" "Buffer_from env (idx p 3) = Inr hh"
       "Buffer_from env (idx p 4) = Inr hn" "Buffer_from env (idx p 5) = Inr gh"
    and ev: "status_summary env p = Some (StatusEvent (idx p 1) td hh hn gh)"
    by blast
  have "handleStatus env s = (Returned, emit (StatusEvent (idx p 1) td hh hn gh) (clearTimeout s))"
    using assms(4) ev unfolding handleStatus_present[OF assms(2,3,1)]
    by (simp add: agree_def)
  then have "fst (handleStatus env s) = Returned"
    "effects (snd (handleStatus env s)) =
       effects s @ [ClearTimeout, Emit (StatusEvent (idx p 1) td hh hn gh)]"
    by simp_all
  with b show "\<exists>td hh hn gh.
            Buffer_from env (idx p 2) = Inr td \<and> Buffer_from env (idx p 3) = Inr hh \<and>
            Buffer_from env (idx p 4) = Inr hn \<and> Buffer_from env (idx p 5) = Inr gh \<and>
            fst (handleStatus env s) = Returned \<and>
            effects (snd (handleStatus env s)) =
              effects s @ [ClearTimeout, Emit (StatusEvent (idx p 1) td hh hn gh)]"
    by blast
next
  fix v ops
  have i: "session_inv env (run env (new_LES v) ops)" by (rule session_inv_run[OF session_inv_new])
  then show "length (status_events (run env (new_LES v) ops)) \<le> 1"
    by (auto simp: session_inv_def)
  from i show "status_events (run env (new_LES v) ops) = [] \<or>
            (\<exists>q ev. peerStatus (run env (new_LES v) ops) = Some q \<and>
               status_summary env q = Some ev \<and>
               status_events (run env (new_LES v) ops) = [Emit ev])"
    by (auto simp: session_inv_def)
next
  fix v ops l' p'
  assume b2i: "\<forall>x. buffer2int env (Value x) = None"
    and both: "status (run env (new_LES v) ops) = Some l' \<and>
               peerStatus (run env (new_LES v) ops) = Some p' \<and> agree l' p'"
  have i: "session_inv env (run env (new_LES v) ops)" by (rule session_inv_run[OF session_inv_new])
  have "answered (run env (new_LES v) ops)"
    by (rule answered_run[OF b2i session_inv_new answered_new])
  with both have "status_events (run env (new_LES v) ops) \<noteq> []"
    by (simp add: answered_def)
  with i show "length (status_events (run env (new_LES v) ops)) = 1"
    by (auto simp: session_inv_def)
qed

theorem negotiation_success_emits_status_once_witness:
  "effects (snd (handleStatus spec_deps
     ((new_LES 1)\<lparr>status := Some (Array [Buffer [1], Buffer [1], Buffer [2], Buffer [3], Buffer [4], Buffer [5]]),
                  peerStatus := Some (Array [Buffer [1], Buffer [1], Buffer [7], Buffer [8], Buffer [9], Buffer [5]])\<rparr>))) =
     [ClearTimeout, Emit (StatusEvent (Value (Buffer [1])) [7] [8] [9] [5])] \<and>
   effects (run spec_deps (new_LES 1) [SendStatus local_arg, HandleMessage STATUS peer_same]) =
     [Send STATUS [0xc6, 1, 1, 2, 3, 4, 5], ClearTimeout,
      Emit (StatusEvent (Value (Buffer [1])) [7] [8] [9] [5])] \<and>
   length (status_events (run spec_deps (new_LES 1)
     [SendStatus local_arg, HandleMessage STATUS peer_same, HandleMessage STATUS peer_same,
      SendStatus local_arg])) = 1"
proof -
  let ?l = "Array [Buffer [1], Buffer [1], Buffer [2], Buffer [3], Buffer [4], Buffer [5]]"
  let ?p = "Array [Buffer [1], Buffer [1], Buffer [7], Buffer [8], Buffer [9], Buffer [5]]"
  let ?s = "(new_LES 1)\<lparr>status := Some ?l, peerStatus := Some ?p\<rparr>"
  have h1: "is_status_array ?l" by simp
  have h2: "status ?s = Some ?l" by simp
  have h3: "peerStatus ?s = Some ?p" by simp
  have h4: "agree ?l ?p" by (simp add: agree_def)
  note T = negotiation_success_emits_status_once[OF h1 h2 h3 h4, of spec_deps]
  from T have a: "effects (snd (handleStatus spec_deps ?s)) =
      [ClearTimeout, Emit (StatusEvent (Value (Buffer [1])) [7] [8] [9] [5])]"
    by (auto simp: new_LES_def)
  have d: "\<forall>x. buffer2int spec_deps (Value x) = None"
    by (simp add: spec_deps_def)
  have e: "status (run spec_deps (new_LES 1)
       [SendStatus local_arg, HandleMessage STATUS peer_same, HandleMessage STATUS peer_same,
        SendStatus local_arg]) = Some ?l \<and>
     peerStatus (run spec_deps (new_LES 1)
       [SendStatus local_arg, HandleMessage STATUS peer_same, HandleMessage STATUS peer_same,
        SendStatus local_arg]) = Some ?p"
    by code_simp
  from T d e h4 have b: "length (status_events (run spec_deps (new_LES 1)
     [SendStatus local_arg, HandleMessage STATUS peer_same, HandleMessage STATUS peer_same,
      SendStatus local_arg])) = 1"
    by blast
  have c: "effects (run spec_deps (new_LES 1) [SendStatus local_arg, HandleMessage STATUS peer_same]) =
     [Send STATUS [0xc6, 1, 1, 2, 3, 4, 5], ClearTimeout,
      Emit (StatusEvent (Value (Buffer [1])) [7] [8] [9] [5])]"
    by code_simp
  from a b c show ?thesis by blast
qed

text \<open>
  C9. \<open>MESSAGE_CODES\<close> has 22 codes, all legal at version 2. The descriptor of version 1
  has length 15 and the 15 legal codes of version 1 are all below 15. The descriptor of
  version 2 has length 21, but version 2 has 22 legal codes: \<open>TX_STATUS\<close> is 21, it is sent
  and received at version 2, and it is not below the length.
\<close>

theorem les2_length_misses_TX_STATUS:
  "length MESSAGE_CODES = 22 \<and> distinct (map snd MESSAGE_CODES) \<and>
   list_all (\<lambda>kv. snd kv \<in> set (legal_codes (d_version les2))) MESSAGE_CODES \<and>
   d_length les = 15 \<and> length (legal_codes (d_version les)) = 15 \<and>
   list_all (\<lambda>c. c < d_length les) (legal_codes (d_version les)) \<and>
   d_length les2 = 21 \<and> length (legal_codes (d_version les2)) = 22 \<and>
   TX_STATUS \<in> set (legal_codes (d_version les2)) \<and>
   \<not> TX_STATUS < d_length les2 \<and>
   fst (sendMessage spec_deps (new_LES (d_version les2)) TX_STATUS (Array [])) = Returned \<and>
   handleMessage spec_deps (new_LES (d_version les2)) TX_STATUS [0xc0] =
     (Returned, (new_LES (d_version les2))\<lparr>effects := [Emit (MessageEvent TX_STATUS (Array []))]\<rparr>)"
  by code_simp

text \<open>
  C10. \<open>_handleMessage\<close> decodes the payload before it looks at the code: when the payload
  does not decode, the call ends in the decoder's error and the session is unchanged,
  whatever the code, also one that is not allowed or not known at the session's version.
  A call that returns had a payload that decodes.
\<close>

theorem handleMessage_decodes_first:
  "(rlp_decode env data = None \<longrightarrow> handleMessage env s code data = (Threw DecodeError, s)) \<and>
   (fst (handleMessage env s code data) = Returned \<longrightarrow> rlp_decode env data \<noteq> None)"
  by (cases "rlp_decode env data") (simp_all add: handleMessage_def)

theorem handleMessage_decodes_first_witness:
  "rlp_decode spec_deps garbage = None \<and>
   \<not> spec_isCodeAllowed 1 GET_PROOFS_V2 \<and>
   handleMessage spec_deps (new_LES 1) GET_PROOFS_V2 garbage = (Threw DecodeError, new_LES 1) \<and>
   spec_min_version 0x30 = None \<and>
   handleMessage spec_deps (new_LES 1) 0x30 garbage = (Threw DecodeError, new_LES 1) \<and>
   rlp_decode spec_deps truncated_list = None \<and>
   handleMessage spec_deps (new_LES 1) GET_PROOFS_V2 truncated_list =
     (Threw DecodeError, new_LES 1) \<and>
   handleMessage spec_deps (new_LES 1) 0x30 truncated_list = (Threw DecodeError, new_LES 1)"
  using handleMessage_decodes_first[of spec_deps garbage "new_LES 1" GET_PROOFS_V2]
    handleMessage_decodes_first[of spec_deps garbage "new_LES 1" "0x30"]
    handleMessage_decodes_first[of spec_deps truncated_list "new_LES 1" GET_PROOFS_V2]
    handleMessage_decodes_first[of spec_deps truncated_list "new_LES 1" "0x30"]
  by (simp add: decode_garbage decode_truncated_list spec_isCodeAllowed_def
      spec_min_version_eq GET_PROOFS_V2_def)

end
